theory Spec2Isabelle
  imports Main "HOL-Library.Multiset"
begin

section \<open>Timeline items\<close>

text \<open>
  The editor component keeps two arrays, \<open>clips\<close> and \<open>textOverlays\<close>. Their element
  types are imported from a types module; the fields are the ones the object literals of
  the component write: \<open>id\<close>, \<open>start\<close>, \<open>duration\<close>, \<open>row\<close>, and \<open>src\<close> for a clip,
  \<open>text\<close> for an overlay. Frame numbers are JavaScript numbers that only ever hold
  integers here (sums of 0, 50, 100 and 200), so they are modelled as \<open>int\<close>.
  The field \<open>id\<close> is called \<open>item_id\<close> and \<open>text\<close> is called \<open>text_value\<close>, since
  \<open>id\<close> is the identity function of HOL and \<open>text\<close> is a command of the language.
\<close>

record TimelineItem =
  item_id :: string
  start :: int
  duration :: int
  row :: int

record Clip = TimelineItem +
  src :: string

record TextOverlay = TimelineItem +
  text_value :: string

text \<open>An element of the merged array \<open>[...clips, ...textOverlays]\<close>.\<close>

datatype Item = ClipItem Clip | OverlayItem TextOverlay

fun itemId :: "Item \<Rightarrow> string" where
  "itemId (ClipItem c) = item_id c"
| "itemId (OverlayItem t) = item_id t"

fun itemStart :: "Item \<Rightarrow> int" where
  "itemStart (ClipItem c) = start c"
| "itemStart (OverlayItem t) = start t"

fun itemDuration :: "Item \<Rightarrow> int" where
  "itemDuration (ClipItem c) = duration c"
| "itemDuration (OverlayItem t) = duration t"

definition itemEnd :: "Item \<Rightarrow> int" where
  "itemEnd x = itemStart x + itemDuration x"

definition allItems :: "Clip list \<Rightarrow> TextOverlay list \<Rightarrow> Item list" where
  "allItems cs ts = map ClipItem cs @ map OverlayItem ts"

section \<open>The state of the editor component\<close>

text \<open>
  The component \<open>ReactVideoEditor\<close> holds its state in \<open>useState\<close> cells. A handler
  reads the cells of the latest render and its \<open>set...\<close> calls take effect together
  before the next handler runs, so a handler is a function from state to state.
\<close>

record EditorState =
  clips :: "Clip list"
  textOverlays :: "TextOverlay list"
  totalDuration :: int
  currentFrame :: int
  isMobile :: bool
  activeTab :: string
  isPlaying :: bool

text \<open>The values given to \<open>useState\<close>.\<close>

definition initialState :: EditorState where
  "initialState =
     \<lparr>clips = [], textOverlays = [], totalDuration = 1, currentFrame = 0,
      isMobile = False, activeTab = ''video'', isPlaying = False\<rparr>"

definition items :: "EditorState \<Rightarrow> Item list" where
  "items s = allItems (clips s) (textOverlays s)"

section \<open>Decimal ids\<close>

text \<open>The template literal \<open>`clip-${clips.length + 1}`\<close> prints a length in decimal.\<close>

definition digit :: "nat \<Rightarrow> char" where
  "digit d = char_of (48 + d)"

fun decimal :: "nat \<Rightarrow> string" where
  "decimal n = (if n < 10 then [digit n] else decimal (n div 10) @ [digit (n mod 10)])"

declare decimal.simps [simp del]

section \<open>Placement: addClip and addTextOverlay\<close>

text \<open>
  Both handlers begin with the same reduction over the merged array:
  \<^verbatim>\<open>
  const lastItem = [...clips, ...textOverlays].reduce(
    (latest, item) =>
      item.start + item.duration > latest.start + latest.duration ? item : latest,
    { start: 0, duration: 0 }
  );
  \<close>
  The accumulator is either the object literal \<open>{ start: 0, duration: 0 }\<close> the
  reduction starts from (\<open>Origin\<close>), or an item of the merged array (\<open>Picked\<close>).
\<close>

datatype Anchor = Origin | Picked Item

fun anchorStart :: "Anchor \<Rightarrow> int" where
  "anchorStart Origin = 0"
| "anchorStart (Picked x) = itemStart x"

fun anchorDuration :: "Anchor \<Rightarrow> int" where
  "anchorDuration Origin = 0"
| "anchorDuration (Picked x) = itemDuration x"

definition anchorEnd :: "Anchor \<Rightarrow> int" where
  "anchorEnd a = anchorStart a + anchorDuration a"

definition pickLatestEnd :: "Anchor \<Rightarrow> Item \<Rightarrow> Anchor" where
  "pickLatestEnd latest item =
     (if itemStart item + itemDuration item > anchorStart latest + anchorDuration latest
      then Picked item else latest)"

definition lastItem :: "Clip list \<Rightarrow> TextOverlay list \<Rightarrow> Anchor" where
  "lastItem cs ts = foldl pickLatestEnd Origin (allItems cs ts)"

definition clipSrc :: string where
  "clipSrc = ''https://rwxrdxvxndclnqvznxfj.supabase.co/storage/v1/object/public/react-video-editor/open-source-video.mp4?t=2024-12-04T03%3A16%3A12.359Z''"

text \<open>
  \<open>updateTotalDuration\<close> runs the same reduction on each of its two arguments,
  \<^verbatim>\<open>reduce((max, clip) => Math.max(max, clip.start + clip.duration), 0)\<close>,
  and stores the larger result with \<open>setTotalDuration\<close>.
\<close>

definition lastEnd :: "'a TimelineItem_scheme list \<Rightarrow> int" where
  "lastEnd xs = foldl (\<lambda>m x. max m (start x + duration x)) 0 xs"

definition updateTotalDuration ::
  "Clip list \<Rightarrow> TextOverlay list \<Rightarrow> EditorState \<Rightarrow> EditorState" where
  "updateTotalDuration updatedClips updatedTextOverlays s =
     (let lastClipEnd = lastEnd updatedClips;
          lastTextOverlayEnd = lastEnd updatedTextOverlays;
          newTotalDuration = max lastClipEnd lastTextOverlayEnd
      in s\<lparr>totalDuration := newTotalDuration\<rparr>)"

text \<open>
  \<open>addClip\<close> builds the new clip, stores \<open>[...clips, newClip]\<close> and calls
  \<open>updateTotalDuration([...clips, newClip], textOverlays)\<close>; \<open>addTextOverlay\<close> does the
  same on the overlays, with duration 100 and the fixed text.
\<close>

definition newClip :: "EditorState \<Rightarrow> Clip" where
  "newClip s =
     (let latest = lastItem (clips s) (textOverlays s)
      in \<lparr>item_id = ''clip-'' @ decimal (length (clips s) + 1),
          start = anchorStart latest + anchorDuration latest,
          duration = 200,
          row = 0,
          src = clipSrc\<rparr>)"

definition addClip :: "EditorState \<Rightarrow> EditorState" where
  "addClip s =
     updateTotalDuration (clips s @ [newClip s]) (textOverlays s)
       (s\<lparr>clips := clips s @ [newClip s]\<rparr>)"

definition newOverlay :: "EditorState \<Rightarrow> TextOverlay" where
  "newOverlay s =
     (let latest = lastItem (clips s) (textOverlays s)
      in \<lparr>item_id = ''text-'' @ decimal (length (textOverlays s) + 1),
          start = anchorStart latest + anchorDuration latest,
          duration = 100,
          row = 0,
          text_value = ''BUILD.''\<rparr>)"

definition addTextOverlay :: "EditorState \<Rightarrow> EditorState" where
  "addTextOverlay s =
     updateTotalDuration (clips s) (textOverlays s @ [newOverlay s])
       (s\<lparr>textOverlays := textOverlays s @ [newOverlay s]\<rparr>)"

section \<open>The effect that runs on mount\<close>

text \<open>
  The effect commented \<open>Effect to add initial clip and text overlay\<close> runs once, after
  the first render. When both collections are empty it stores one fixed clip and one
  fixed overlay and recomputes the total duration; otherwise it does nothing.
\<close>

definition initialClip :: Clip where
  "initialClip =
     \<lparr>item_id = ''clip-1'', start = 0, duration = 200, row = 0, src = clipSrc\<rparr>"

definition initialTextOverlay :: TextOverlay where
  "initialTextOverlay =
     \<lparr>item_id = ''text-1'', start = 50, duration = 100, row = 0, text_value = ''BUILD.''\<rparr>"

definition seedEffect :: "EditorState \<Rightarrow> EditorState" where
  "seedEffect s =
     (if length (clips s) = 0 \<and> length (textOverlays s) = 0
      then updateTotalDuration [initialClip] [initialTextOverlay]
             (s\<lparr>clips := [initialClip], textOverlays := [initialTextOverlay]\<rparr>)
      else s)"

section \<open>Playback handlers\<close>

text \<open>
  The player is reached through a ref that is null until the player is mounted:
  \<open>None\<close> is the null ref, \<open>Some f\<close> a player whose \<open>getCurrentFrame()\<close> returns
  \<open>f\<close>, itself \<open>None\<close> for null.
\<close>

type_synonym PlayerRef = "int option option"

definition handlePlayPause :: "PlayerRef \<Rightarrow> EditorState \<Rightarrow> EditorState" where
  "handlePlayPause playerRef s =
     (case playerRef of
        None \<Rightarrow> s
      | Some _ \<Rightarrow> s\<lparr>isPlaying := \<not> isPlaying s\<rparr>)"

definition sampleFrame :: "PlayerRef \<Rightarrow> EditorState \<Rightarrow> EditorState" where
  "sampleFrame playerRef s =
     (case playerRef of
        None \<Rightarrow> s
      | Some frame \<Rightarrow>
          (case frame of None \<Rightarrow> s | Some f \<Rightarrow> s\<lparr>currentFrame := f\<rparr>))"

text \<open>
  \<open>checkMobile\<close> runs on mount and on every resize of the window;
  \<open>handleRenderVideo\<close> only shows an alert.
\<close>

definition checkMobile :: "int \<Rightarrow> EditorState \<Rightarrow> EditorState" where
  "checkMobile innerWidth s = s\<lparr>isMobile := (innerWidth \<le> 768)\<rparr>"

definition handleRenderVideo :: "EditorState \<Rightarrow> EditorState" where
  "handleRenderVideo s = s"

text \<open>
  The duration the preview hands to the player:
  \<^verbatim>\<open>durationInFrames={Math.max(1, totalDuration)}\<close>.
\<close>

definition playerDurationInFrames :: "int \<Rightarrow> int" where
  "playerDurationInFrames totalDur = max 1 totalDur"

section \<open>Everything that can happen to the state\<close>

text \<open>
  The two buttons of the timeline call \<open>addClip\<close> and \<open>addTextOverlay\<close>. The other
  events are the mount effect, the play button, the 30 Hz sampling of the player's frame,
  a resize of the window, a click on a sidebar tab and the render button.
\<close>

datatype Append = AppendMediaClip | AppendTextOverlay

fun appendItem :: "Append \<Rightarrow> EditorState \<Rightarrow> EditorState" where
  "appendItem AppendMediaClip s = addClip s"
| "appendItem AppendTextOverlay s = addTextOverlay s"

definition appends :: "Append list \<Rightarrow> EditorState \<Rightarrow> EditorState" where
  "appends as s = foldl (\<lambda>st a. appendItem a st) s as"

datatype Event =
    Click Append
  | SeedEffect
  | PlayPause PlayerRef
  | FrameTick PlayerRef
  | Resize int
  | TabChange string
  | RenderVideo

fun handle :: "Event \<Rightarrow> EditorState \<Rightarrow> EditorState" where
  "handle (Click a) s = appendItem a s"
| "handle SeedEffect s = seedEffect s"
| "handle (PlayPause p) s = handlePlayPause p s"
| "handle (FrameTick p) s = sampleFrame p s"
| "handle (Resize w) s = checkMobile w s"
| "handle (TabChange tab) s = s\<lparr>activeTab := tab\<rparr>"
| "handle RenderVideo s = handleRenderVideo s"

definition run :: "Event list \<Rightarrow> EditorState \<Rightarrow> EditorState" where
  "run es s = foldl (\<lambda>st e. handle e st) s es"

section \<open>The composition handed to the player\<close>

text \<open>
  \<^verbatim>\<open>
  [...clips, ...textOverlays]
    .sort((a, b) => a.start - b.start)
    .map((item) => <Sequence key={item.id} from={item.start}
                             durationInFrames={item.duration}> ... </Sequence>)
  \<close>
  \<open>Array.prototype.sort\<close> is the host's; ECMAScript (2019 and later) requires it to be
  stable. It is modelled as an insertion sort driven by the comparator: going through the
  array from the right, an element is put before the first element that it does not
  compare greater than, so elements that compare equal keep their order. The child of a
  sequence is a \<open>Video\<close> when the item has a \<open>src\<close> and a \<open>TextOverlayComponent\<close>
  otherwise.
\<close>

fun insertSorted :: "('a \<Rightarrow> 'a \<Rightarrow> int) \<Rightarrow> 'a \<Rightarrow> 'a list \<Rightarrow> 'a list" where
  "insertSorted cmp x [] = [x]"
| "insertSorted cmp x (y # ys) =
     (if cmp x y \<le> 0 then x # y # ys else y # insertSorted cmp x ys)"

definition arraySort :: "('a \<Rightarrow> 'a \<Rightarrow> int) \<Rightarrow> 'a list \<Rightarrow> 'a list" where
  "arraySort cmp xs = foldr (insertSorted cmp) xs []"

datatype Child = Video string | TextOverlayComponent string

record Sequence =
  key :: string
  from_frame :: int
  durationInFrames :: int
  child :: Child

fun renderItem :: "Item \<Rightarrow> Sequence" where
  "renderItem (ClipItem c) =
     \<lparr>key = item_id c, from_frame = start c, durationInFrames = duration c,
      child = Video (src c)\<rparr>"
| "renderItem (OverlayItem t) =
     \<lparr>key = item_id t, from_frame = start t, durationInFrames = duration t,
      child = TextOverlayComponent (text_value t)\<rparr>"

definition Composition :: "Clip list \<Rightarrow> TextOverlay list \<Rightarrow> Sequence list" where
  "Composition cs ts =
     map renderItem (arraySort (\<lambda>a b. itemStart a - itemStart b) (allItems cs ts))"

section \<open>Properties of timelines\<close>

text \<open>Two items overlap when their half-open intervals \<open>[start, start + duration)\<close> meet.\<close>

definition overlap :: "Item \<Rightarrow> Item \<Rightarrow> bool" where
  "overlap a b = (itemStart a < itemEnd b \<and> itemStart b < itemEnd a)"

definition noOverlap :: "Item list \<Rightarrow> bool" where
  "noOverlap xs = sorted_wrt (\<lambda>a b. \<not> overlap a b) xs"

text \<open>The frame at which an append places its item.\<close>

definition anchorFrame :: "EditorState \<Rightarrow> int" where
  "anchorFrame s = anchorEnd (lastItem (clips s) (textOverlays s))"

text \<open>An item is well formed when it starts at frame 0 or later and lasts at least a frame.\<close>

definition validItem :: "Item \<Rightarrow> bool" where
  "validItem x = (0 \<le> itemStart x \<and> 0 < itemDuration x)"

text \<open>Both collections have strictly increasing starts in array order.\<close>

definition startsIncrease :: "EditorState \<Rightarrow> bool" where
  "startsIncrease s =
     (sorted_wrt (<) (map start (clips s)) \<and> sorted_wrt (<) (map start (textOverlays s)))"

text \<open>The stored total is the largest end frame of the items, and 1 for no item.\<close>

definition durationConsistent :: "EditorState \<Rightarrow> bool" where
  "durationConsistent s =
     (totalDuration s = (if items s = [] then 1 else Max (itemEnd ` set (items s))))"

text \<open>
  Collections in which two items end at the same frame: the second clip and the overlay
  both end at frame 300.
\<close>

definition tieClips :: "Clip list" where
  "tieClips = [\<lparr>item_id = ''clip-1'', start = 0, duration = 200, row = 0, src = clipSrc\<rparr>,
               \<lparr>item_id = ''clip-2'', start = 0, duration = 300, row = 0, src = clipSrc\<rparr>]"

definition tieOverlays :: "TextOverlay list" where
  "tieOverlays = [\<lparr>item_id = ''text-1'', start = 200, duration = 100, row = 0, text_value = ''BUILD.''\<rparr>]"

text \<open>Collections in which a clip and an overlay start at the same frame, twice.\<close>

definition sameStartClips :: "Clip list" where
  "sameStartClips =
     [\<lparr>item_id = ''clip-1'', start = 50, duration = 200, row = 0, src = clipSrc\<rparr>,
      \<lparr>item_id = ''clip-2'', start = 0, duration = 200, row = 0, src = clipSrc\<rparr>]"

definition sameStartOverlays :: "TextOverlay list" where
  "sameStartOverlays =
     [\<lparr>item_id = ''text-1'', start = 0, duration = 100, row = 0, text_value = ''BUILD.''\<rparr>,
      \<lparr>item_id = ''text-2'', start = 50, duration = 100, row = 0, text_value = ''BUILD.''\<rparr>]"

fun isAppend :: "Event \<Rightarrow> bool" where
  "isAppend (Click a) = True"
| "isAppend e = False"

section \<open>Facts about placement\<close>

lemma anchorEnd_pick:
  "anchorEnd (pickLatestEnd a x) = max (anchorEnd a) (itemEnd x)"
  by (simp add: pickLatestEnd_def anchorEnd_def itemEnd_def max_def)

lemma anchorEnd_foldl:
  "anchorEnd (foldl pickLatestEnd a xs) = Max (insert (anchorEnd a) (itemEnd ` set xs))"
proof (induction xs arbitrary: a)
  case Nil
  show ?case by simp
next
  case (Cons x xs)
  have "Max (insert (max (anchorEnd a) (itemEnd x)) (itemEnd ` set xs))
        = Max (insert (anchorEnd a) (insert (itemEnd x) (itemEnd ` set xs)))"
    by (cases "xs = []") (simp_all add: max.assoc)
  with Cons show ?case by (simp add: anchorEnd_pick)
qed

lemma anchorFrame_Max:
  "anchorFrame s = Max (insert 0 (itemEnd ` set (items s)))"
  unfolding anchorFrame_def lastItem_def items_def anchorEnd_foldl
  by (simp add: anchorEnd_def)

lemma anchorFrame_nonneg: "0 \<le> anchorFrame s"
  by (simp add: anchorFrame_Max)

lemma anchorFrame_ge: "x \<in> set (items s) \<Longrightarrow> itemEnd x \<le> anchorFrame s"
  by (simp add: anchorFrame_Max)

lemma start_newClip: "start (newClip s) = anchorFrame s"
  by (simp add: newClip_def anchorFrame_def anchorEnd_def Let_def)

lemma start_newOverlay: "start (newOverlay s) = anchorFrame s"
  by (simp add: newOverlay_def anchorFrame_def anchorEnd_def Let_def)

lemma duration_newClip: "duration (newClip s) = 200"
  by (simp add: newClip_def Let_def)

lemma duration_newOverlay: "duration (newOverlay s) = 100"
  by (simp add: newOverlay_def Let_def)

lemma clips_addClip: "clips (addClip s) = clips s @ [newClip s]"
  by (simp add: addClip_def updateTotalDuration_def Let_def)

lemma textOverlays_addClip: "textOverlays (addClip s) = textOverlays s"
  by (simp add: addClip_def updateTotalDuration_def Let_def)

lemma clips_addTextOverlay: "clips (addTextOverlay s) = clips s"
  by (simp add: addTextOverlay_def updateTotalDuration_def Let_def)

lemma textOverlays_addTextOverlay:
  "textOverlays (addTextOverlay s) = textOverlays s @ [newOverlay s]"
  by (simp add: addTextOverlay_def updateTotalDuration_def Let_def)

lemma items_addClip:
  "items (addClip s) =
     map ClipItem (clips s) @ ClipItem (newClip s) # map OverlayItem (textOverlays s)"
  by (simp add: items_def allItems_def clips_addClip textOverlays_addClip)

lemma items_addTextOverlay:
  "items (addTextOverlay s) = items s @ [OverlayItem (newOverlay s)]"
  by (simp add: items_def allItems_def clips_addTextOverlay textOverlays_addTextOverlay)

lemma set_items_addClip:
  "set (items (addClip s)) = insert (ClipItem (newClip s)) (set (items s))"
  unfolding items_addClip by (auto simp: items_def allItems_def)

lemma set_items_addTextOverlay:
  "set (items (addTextOverlay s)) = insert (OverlayItem (newOverlay s)) (set (items s))"
  by (simp add: items_addTextOverlay)

lemma overlap_sym: "overlap a b = overlap b a"
  by (auto simp: overlap_def)

lemma not_overlap_after: "itemEnd x \<le> itemStart y \<Longrightarrow> \<not> overlap x y"
  by (simp add: overlap_def)

lemma new_clip_clear:
  "x \<in> set (items s) \<Longrightarrow> \<not> overlap x (ClipItem (newClip s))"
  by (rule not_overlap_after) (simp add: start_newClip anchorFrame_ge)

lemma new_overlay_clear:
  "x \<in> set (items s) \<Longrightarrow> \<not> overlap x (OverlayItem (newOverlay s))"
  by (rule not_overlap_after) (simp add: start_newOverlay anchorFrame_ge)

lemma noOverlap_addClip: "noOverlap (items s) \<Longrightarrow> noOverlap (items (addClip s))"
  unfolding noOverlap_def items_addClip
  using new_clip_clear [of _ s]
  by (auto simp: sorted_wrt_append items_def allItems_def overlap_sym [of "ClipItem (newClip s)"])

lemma noOverlap_addTextOverlay:
  "noOverlap (items s) \<Longrightarrow> noOverlap (items (addTextOverlay s))"
  unfolding noOverlap_def items_addTextOverlay
  using new_overlay_clear [of _ s]
  by (auto simp: sorted_wrt_append)

lemma appends_snoc: "appends (ops @ [a]) s = appendItem a (appends ops s)"
  by (simp add: appends_def)

lemma noOverlap_appendItem: "noOverlap (items s) \<Longrightarrow> noOverlap (items (appendItem a s))"
  by (cases a) (simp_all add: noOverlap_addClip noOverlap_addTextOverlay)

lemma noOverlap_appends: "noOverlap (items (appends ops initialState))"
proof (induction ops rule: rev_induct)
  case Nil
  show ?case by (simp add: appends_def initialState_def items_def allItems_def noOverlap_def)
next
  case (snoc a ops)
  then show ?case by (simp add: appends_snoc noOverlap_appendItem)
qed

lemma noOverlap_nth:
  assumes "noOverlap xs" "i < length xs" "j < length xs" "i \<noteq> j"
  shows "\<not> overlap (xs ! i) (xs ! j)"
proof (cases "i < j")
  case True
  with assms show ?thesis by (simp add: noOverlap_def sorted_wrt_iff_nth_less)
next
  case False
  with assms have "j < i" by simp
  with assms have "\<not> overlap (xs ! j) (xs ! i)"
    by (simp add: noOverlap_def sorted_wrt_iff_nth_less)
  then show ?thesis by (simp add: overlap_sym)
qed

lemma validItem_newClip: "validItem (ClipItem (newClip s))"
  by (simp add: validItem_def start_newClip duration_newClip anchorFrame_nonneg)

lemma validItem_newOverlay: "validItem (OverlayItem (newOverlay s))"
  by (simp add: validItem_def start_newOverlay duration_newOverlay anchorFrame_nonneg)

lemma valid_appendItem:
  "list_all validItem (items s) \<Longrightarrow> list_all validItem (items (appendItem a s))"
  by (cases a)
     (simp_all add: list_all_iff set_items_addClip set_items_addTextOverlay
        validItem_newClip validItem_newOverlay)

lemma valid_appends: "list_all validItem (items (appends ops initialState))"
proof (induction ops rule: rev_induct)
  case Nil
  show ?case by (simp add: appends_def initialState_def items_def allItems_def)
next
  case (snoc a ops)
  then show ?case by (simp add: appends_snoc valid_appendItem)
qed

lemma validItem_end_pos: "validItem x \<Longrightarrow> 0 < itemEnd x"
  by (simp add: validItem_def itemEnd_def)

lemma Max_ends_pos:
  assumes "list_all validItem xs" "xs \<noteq> []"
  shows "Max (insert 0 (itemEnd ` set xs)) = Max (itemEnd ` set xs)"
proof -
  from assms obtain x where x: "x \<in> set xs" by (cases xs) auto
  with assms have "0 < itemEnd x" by (simp add: list_all_iff validItem_end_pos)
  moreover from x have "itemEnd x \<le> Max (itemEnd ` set xs)" by simp
  ultimately have "0 \<le> Max (itemEnd ` set xs)" by linarith
  with assms(2) show ?thesis by (simp add: max_def)
qed

section \<open>Facts about the order of starts\<close>

lemma start_before_end: "validItem x \<Longrightarrow> itemStart x < itemEnd x"
  by (simp add: validItem_def itemEnd_def)

lemma clip_in_items: "c \<in> set (clips s) \<Longrightarrow> ClipItem c \<in> set (items s)"
  by (simp add: items_def allItems_def)

lemma overlay_in_items: "t \<in> set (textOverlays s) \<Longrightarrow> OverlayItem t \<in> set (items s)"
  by (simp add: items_def allItems_def)

lemma clip_starts_before_anchor:
  assumes "list_all validItem (items s)" "c \<in> set (clips s)"
  shows "start c < anchorFrame s"
proof -
  from assms have "validItem (ClipItem c)" "itemEnd (ClipItem c) \<le> anchorFrame s"
    by (simp_all add: list_all_iff clip_in_items anchorFrame_ge)
  then show ?thesis using start_before_end [of "ClipItem c"] by simp
qed

lemma overlay_starts_before_anchor:
  assumes "list_all validItem (items s)" "t \<in> set (textOverlays s)"
  shows "start t < anchorFrame s"
proof -
  from assms have "validItem (OverlayItem t)" "itemEnd (OverlayItem t) \<le> anchorFrame s"
    by (simp_all add: list_all_iff overlay_in_items anchorFrame_ge)
  then show ?thesis using start_before_end [of "OverlayItem t"] by simp
qed

lemma startsIncrease_appendItem:
  assumes "list_all validItem (items s)" "startsIncrease s"
  shows "startsIncrease (appendItem a s)"
proof (cases a)
  case AppendMediaClip
  with assms show ?thesis
    by (auto simp: startsIncrease_def clips_addClip textOverlays_addClip sorted_wrt_append
        start_newClip clip_starts_before_anchor)
next
  case AppendTextOverlay
  with assms show ?thesis
    by (auto simp: startsIncrease_def clips_addTextOverlay textOverlays_addTextOverlay
        sorted_wrt_append start_newOverlay overlay_starts_before_anchor)
qed

section \<open>Facts about the total duration\<close>

lemma foldl_max_Max:
  "foldl (\<lambda>m x. max m (f x)) (m :: int) xs = Max (insert m (f ` set xs))"
proof (induction xs arbitrary: m)
  case Nil
  show ?case by simp
next
  case (Cons x xs)
  have "Max (insert (max m (f x)) (f ` set xs)) = Max (insert m (insert (f x) (f ` set xs)))"
    by (cases "xs = []") (simp_all add: max.assoc)
  with Cons show ?case by simp
qed

lemma lastEnd_Max: "lastEnd xs = Max (insert 0 ((\<lambda>x. start x + duration x) ` set xs))"
  by (simp add: lastEnd_def foldl_max_Max)

lemma totalDuration_update:
  "totalDuration (updateTotalDuration cs ts s) = max (lastEnd cs) (lastEnd ts)"
  by (simp add: updateTotalDuration_def Let_def)

lemma ends_allItems:
  "itemEnd ` set (allItems cs ts) =
     (\<lambda>c. start c + duration c) ` set cs \<union> (\<lambda>t. start t + duration t) ` set ts"
  by (simp add: allItems_def image_Un image_image itemEnd_def)

lemma max_Max_insert:
  assumes "finite A" "finite B"
  shows "max (Max (insert (0::int) A)) (Max (insert 0 B)) = Max (insert 0 (A \<union> B))"
proof -
  have "Max (insert 0 A \<union> insert 0 B) = max (Max (insert 0 A)) (Max (insert 0 B))"
    using assms by (intro Max_Un) simp_all
  then show ?thesis by (simp add: Un_commute insert_commute Un_insert_left Un_insert_right)
qed

lemma totalDuration_update_Max:
  "totalDuration (updateTotalDuration cs ts s) = Max (insert 0 (itemEnd ` set (allItems cs ts)))"
  by (simp add: totalDuration_update lastEnd_Max ends_allItems max_Max_insert)

lemma Max_insert_0_pos:
  assumes "finite A" "x \<in> A" "(0::int) < x"
  shows "Max (insert 0 A) = Max A"
proof -
  from assms have "x \<le> Max A" by simp
  with assms have "0 \<le> Max A" by linarith
  moreover from assms have "A \<noteq> {}" by auto
  ultimately show ?thesis using assms(1) by (simp add: max_def)
qed

lemma itemEnd_newClip_pos: "0 < itemEnd (ClipItem (newClip s))"
  by (rule validItem_end_pos) (rule validItem_newClip)

lemma itemEnd_newOverlay_pos: "0 < itemEnd (OverlayItem (newOverlay s))"
  by (rule validItem_end_pos) (rule validItem_newOverlay)

lemma totalDuration_addClip:
  "totalDuration (addClip s) = Max (itemEnd ` set (items (addClip s)))"
proof -
  have "totalDuration (addClip s) = Max (insert 0 (itemEnd ` set (items (addClip s))))"
    by (simp add: addClip_def totalDuration_update_Max items_def
        clips_addClip [unfolded addClip_def] textOverlays_addClip [unfolded addClip_def])
  also have "\<dots> = Max (itemEnd ` set (items (addClip s)))"
    by (rule Max_insert_0_pos [where x = "itemEnd (ClipItem (newClip s))"])
       (simp_all add: set_items_addClip itemEnd_newClip_pos)
  finally show ?thesis .
qed

lemma totalDuration_addTextOverlay:
  "totalDuration (addTextOverlay s) = Max (itemEnd ` set (items (addTextOverlay s)))"
proof -
  have "totalDuration (addTextOverlay s) =
          Max (insert 0 (itemEnd ` set (items (addTextOverlay s))))"
    by (simp add: addTextOverlay_def totalDuration_update_Max items_def
        clips_addTextOverlay [unfolded addTextOverlay_def]
        textOverlays_addTextOverlay [unfolded addTextOverlay_def])
  also have "\<dots> = Max (itemEnd ` set (items (addTextOverlay s)))"
    by (rule Max_insert_0_pos [where x = "itemEnd (OverlayItem (newOverlay s))"])
       (simp_all add: set_items_addTextOverlay itemEnd_newOverlay_pos)
  finally show ?thesis .
qed

lemma items_addClip_ne: "items (addClip s) \<noteq> []"
  by (simp add: items_addClip)

lemma items_addTextOverlay_ne: "items (addTextOverlay s) \<noteq> []"
  by (simp add: items_addTextOverlay)

lemma durationConsistent_appendItem: "durationConsistent (appendItem a s)"
  by (cases a)
     (simp_all add: durationConsistent_def items_addClip_ne items_addTextOverlay_ne
        totalDuration_addClip totalDuration_addTextOverlay)

lemma seeded_state:
  "clips s = [] \<Longrightarrow> textOverlays s = [] \<Longrightarrow>
   clips (seedEffect s) = [initialClip] \<and> textOverlays (seedEffect s) = [initialTextOverlay]
   \<and> totalDuration (seedEffect s) = 200"
  by (simp add: seedEffect_def updateTotalDuration_def lastEnd_def Let_def
      initialClip_def initialTextOverlay_def)

lemma seedEffect_idle:
  "clips s \<noteq> [] \<or> textOverlays s \<noteq> [] \<Longrightarrow> seedEffect s = s"
  by (auto simp: seedEffect_def)

lemma durationConsistent_seedEffect:
  assumes "durationConsistent s"
  shows "durationConsistent (seedEffect s)"
proof (cases "clips s = [] \<and> textOverlays s = []")
  case True
  then have "clips (seedEffect s) = [initialClip]"
    "textOverlays (seedEffect s) = [initialTextOverlay]" "totalDuration (seedEffect s) = 200"
    by (simp_all add: seeded_state)
  then show ?thesis
    by (simp add: durationConsistent_def items_def allItems_def itemEnd_def
        initialClip_def initialTextOverlay_def)
next
  case False
  with assms show ?thesis by (simp add: seedEffect_idle)
qed

lemma durationConsistent_handle:
  "durationConsistent s \<Longrightarrow> durationConsistent (handle e s)"
proof (cases e)
  case (Click a)
  then show ?thesis by (simp add: durationConsistent_appendItem)
next
  case SeedEffect
  assume "durationConsistent s"
  with SeedEffect show ?thesis by (simp add: durationConsistent_seedEffect)
next
  case (PlayPause p)
  assume "durationConsistent s"
  with PlayPause show ?thesis
    by (simp add: durationConsistent_def items_def handlePlayPause_def split: option.splits)
next
  case (FrameTick p)
  assume "durationConsistent s"
  with FrameTick show ?thesis
    by (simp add: durationConsistent_def items_def sampleFrame_def split: option.splits)
next
  case (Resize w)
  assume "durationConsistent s"
  with Resize show ?thesis
    by (simp add: durationConsistent_def items_def checkMobile_def)
next
  case (TabChange tab)
  assume "durationConsistent s"
  with TabChange show ?thesis by (simp add: durationConsistent_def items_def)
next
  case RenderVideo
  assume "durationConsistent s"
  with RenderVideo show ?thesis by (simp add: handleRenderVideo_def)
qed

lemma run_snoc: "run (es @ [e]) s = handle e (run es s)"
  by (simp add: run_def)

lemma durationConsistent_run: "durationConsistent (run es initialState)"
proof (induction es rule: rev_induct)
  case Nil
  show ?case by (simp add: run_def durationConsistent_def initialState_def items_def allItems_def)
next
  case (snoc e es)
  then show ?case by (simp add: run_snoc durationConsistent_handle)
qed

section \<open>Facts about the anchor\<close>

lemma pick_tie: "itemEnd item = anchorEnd latest \<Longrightarrow> pickLatestEnd latest item = latest"
  by (simp add: pickLatestEnd_def itemEnd_def anchorEnd_def)

lemma pick_cases:
  "pickLatestEnd a x = (if anchorEnd a < itemEnd x then Picked x else a)"
  by (simp add: pickLatestEnd_def itemEnd_def anchorEnd_def)

lemma anchorEnd_Picked: "anchorEnd (Picked x) = itemEnd x"
  by (simp add: anchorEnd_def itemEnd_def)

lemma foldl_pick_split:
  "(foldl pickLatestEnd a xs = a \<and> (\<forall>y \<in> set xs. itemEnd y \<le> anchorEnd a))
   \<or> (\<exists>pre x post. xs = pre @ x # post \<and> foldl pickLatestEnd a xs = Picked x
         \<and> anchorEnd a < itemEnd x
         \<and> (\<forall>y \<in> set pre. itemEnd y < itemEnd x)
         \<and> (\<forall>y \<in> set post. itemEnd y \<le> itemEnd x))"
proof (induction xs arbitrary: a)
  case Nil
  show ?case by simp
next
  case (Cons z zs)
  show ?case
  proof (cases "anchorEnd a < itemEnd z")
    case True
    then have step: "foldl pickLatestEnd a (z # zs) = foldl pickLatestEnd (Picked z) zs"
      by (simp add: pick_cases)
    from Cons.IH [of "Picked z"] show ?thesis
    proof
      assume "foldl pickLatestEnd (Picked z) zs = Picked z
                \<and> (\<forall>y \<in> set zs. itemEnd y \<le> anchorEnd (Picked z))"
      with True step have "z # zs = [] @ z # zs \<and> foldl pickLatestEnd a (z # zs) = Picked z
          \<and> anchorEnd a < itemEnd z \<and> (\<forall>y \<in> set []. itemEnd y < itemEnd z)
          \<and> (\<forall>y \<in> set zs. itemEnd y \<le> itemEnd z)"
        by (simp add: anchorEnd_Picked)
      then show ?thesis by blast
    next
      assume "\<exists>pre x post. zs = pre @ x # post \<and> foldl pickLatestEnd (Picked z) zs = Picked x
                \<and> anchorEnd (Picked z) < itemEnd x
                \<and> (\<forall>y \<in> set pre. itemEnd y < itemEnd x)
                \<and> (\<forall>y \<in> set post. itemEnd y \<le> itemEnd x)"
      then obtain pre x post where p: "zs = pre @ x # post"
        "foldl pickLatestEnd (Picked z) zs = Picked x" "itemEnd z < itemEnd x"
        "\<forall>y \<in> set pre. itemEnd y < itemEnd x" "\<forall>y \<in> set post. itemEnd y \<le> itemEnd x"
        by (auto simp: anchorEnd_Picked)
      with True step have "z # zs = (z # pre) @ x # post
          \<and> foldl pickLatestEnd a (z # zs) = Picked x
          \<and> anchorEnd a < itemEnd x \<and> (\<forall>y \<in> set (z # pre). itemEnd y < itemEnd x)
          \<and> (\<forall>y \<in> set post. itemEnd y \<le> itemEnd x)"
        by simp
      then show ?thesis by blast
    qed
  next
    case False
    then have step: "foldl pickLatestEnd a (z # zs) = foldl pickLatestEnd a zs"
      by (simp add: pick_cases)
    from Cons.IH [of a] show ?thesis
    proof
      assume "foldl pickLatestEnd a zs = a \<and> (\<forall>y \<in> set zs. itemEnd y \<le> anchorEnd a)"
      with False step show ?thesis by simp
    next
      assume "\<exists>pre x post. zs = pre @ x # post \<and> foldl pickLatestEnd a zs = Picked x
                \<and> anchorEnd a < itemEnd x
                \<and> (\<forall>y \<in> set pre. itemEnd y < itemEnd x)
                \<and> (\<forall>y \<in> set post. itemEnd y \<le> itemEnd x)"
      then obtain pre x post where p: "zs = pre @ x # post"
        "foldl pickLatestEnd a zs = Picked x" "anchorEnd a < itemEnd x"
        "\<forall>y \<in> set pre. itemEnd y < itemEnd x" "\<forall>y \<in> set post. itemEnd y \<le> itemEnd x"
        by auto
      with False step have "z # zs = (z # pre) @ x # post
          \<and> foldl pickLatestEnd a (z # zs) = Picked x
          \<and> anchorEnd a < itemEnd x \<and> (\<forall>y \<in> set (z # pre). itemEnd y < itemEnd x)
          \<and> (\<forall>y \<in> set post. itemEnd y \<le> itemEnd x)"
        by simp
      then show ?thesis by blast
    qed
  qed
qed

lemma find_skip: "\<forall>y \<in> set pre. \<not> P y \<Longrightarrow> find P (pre @ ys) = find P ys"
  by (induction pre) simp_all

lemma find_first_max:
  assumes "xs = pre @ x # post" "\<forall>y \<in> set pre. itemEnd y < itemEnd x"
    "\<forall>y \<in> set post. itemEnd y \<le> itemEnd x"
  shows "Max (itemEnd ` set xs) = itemEnd x"
    and "find (\<lambda>y. itemEnd y = Max (itemEnd ` set xs)) xs = Some x"
proof -
  show m: "Max (itemEnd ` set xs) = itemEnd x"
    using assms by (intro Max_eqI) auto
  have "\<forall>y \<in> set pre. \<not> itemEnd y = itemEnd x"
    using assms(2) by auto
  then show "find (\<lambda>y. itemEnd y = Max (itemEnd ` set xs)) xs = Some x"
    unfolding m by (simp add: assms(1) find_skip)
qed

lemma lastItem_Origin:
  assumes "\<forall>x \<in> set (allItems cs ts). itemEnd x \<le> 0"
  shows "lastItem cs ts = Origin"
proof -
  from foldl_pick_split [of Origin "allItems cs ts"] assms show ?thesis
    by (fastforce simp: lastItem_def anchorEnd_def)
qed

lemma lastItem_first_max:
  assumes "\<exists>x \<in> set (allItems cs ts). 0 < itemEnd x"
  shows "\<exists>x. find (\<lambda>y. itemEnd y = Max (itemEnd ` set (allItems cs ts))) (allItems cs ts) = Some x
             \<and> lastItem cs ts = Picked x"
proof -
  from foldl_pick_split [of Origin "allItems cs ts"] assms
  obtain pre x post where p: "allItems cs ts = pre @ x # post"
    "lastItem cs ts = Picked x" "\<forall>y \<in> set pre. itemEnd y < itemEnd x"
    "\<forall>y \<in> set post. itemEnd y \<le> itemEnd x"
    unfolding lastItem_def anchorEnd_def by fastforce
  from find_first_max(2) [OF p(1) p(3) p(4)] p(2) show ?thesis by blast
qed

section \<open>Facts about the composition\<close>

lemma insertSorted_insort:
  "insertSorted (\<lambda>a b. f a - f b) x ys = insort_key (f :: 'a \<Rightarrow> int) x ys"
  by (induction ys) simp_all

lemma arraySort_sort_key:
  "arraySort (\<lambda>a b. f a - f b) xs = sort_key (f :: 'a \<Rightarrow> int) xs"
  by (induction xs) (simp_all add: arraySort_def insertSorted_insort)

lemma from_frame_renderItem: "from_frame (renderItem x) = itemStart x"
  by (cases x) simp_all

lemma distinct_starts:
  "noOverlap xs \<Longrightarrow> list_all validItem xs \<Longrightarrow> distinct (map itemStart xs)"
proof (induction xs)
  case Nil
  show ?case by simp
next
  case (Cons x xs)
  have "itemStart x \<noteq> itemStart y" if "y \<in> set xs" for y
  proof
    assume eq: "itemStart x = itemStart y"
    from Cons.prems that have "validItem x" "validItem y" "\<not> overlap x y"
      by (auto simp: noOverlap_def list_all_iff)
    with eq show False by (simp add: overlap_def validItem_def itemEnd_def)
  qed
  with Cons show ?case by (auto simp: noOverlap_def)
qed

section \<open>Facts about the other handlers\<close>

lemma collections_other:
  "\<not> isAppend e \<Longrightarrow> e \<noteq> SeedEffect \<Longrightarrow>
   clips (handle e s) = clips s \<and> textOverlays (handle e s) = textOverlays s"
  by (cases e)
     (simp_all add: handlePlayPause_def sampleFrame_def checkMobile_def handleRenderVideo_def
        split: option.splits)

lemma collections_seed:
  "clips (seedEffect s) = (if clips s = [] \<and> textOverlays s = [] then [initialClip] else clips s)
   \<and> textOverlays (seedEffect s) =
       (if clips s = [] \<and> textOverlays s = [] then [initialTextOverlay] else textOverlays s)"
  by (simp add: seedEffect_def updateTotalDuration_def Let_def)

lemma collections_append:
  "clips (appendItem a s) = clips s @ (case a of AppendMediaClip \<Rightarrow> [newClip s] | AppendTextOverlay \<Rightarrow> [])
   \<and> textOverlays (appendItem a s) =
       textOverlays s @ (case a of AppendMediaClip \<Rightarrow> [] | AppendTextOverlay \<Rightarrow> [newOverlay s])"
  by (cases a)
     (simp_all add: clips_addClip textOverlays_addClip clips_addTextOverlay
        textOverlays_addTextOverlay)

lemma collections_kept:
  "take (length (clips s)) (clips (handle e s)) = clips s
   \<and> take (length (textOverlays s)) (textOverlays (handle e s)) = textOverlays s"
proof (cases e)
  case (Click a)
  then show ?thesis by (simp add: collections_append)
next
  case SeedEffect
  then show ?thesis by (simp add: collections_seed)
qed (simp_all add: handlePlayPause_def sampleFrame_def checkMobile_def handleRenderVideo_def
       split: option.splits)

lemma valid_seedEffect:
  "list_all validItem (items s) \<Longrightarrow> list_all validItem (items (seedEffect s))"
  by (simp add: items_def allItems_def collections_seed validItem_def
      initialClip_def initialTextOverlay_def)

lemma valid_handle: "list_all validItem (items s) \<Longrightarrow> list_all validItem (items (handle e s))"
proof (cases e)
  case (Click a)
  assume "list_all validItem (items s)"
  with Click show ?thesis by (simp add: valid_appendItem)
next
  case SeedEffect
  assume "list_all validItem (items s)"
  with SeedEffect show ?thesis by (simp add: valid_seedEffect)
qed (simp_all add: items_def handlePlayPause_def sampleFrame_def checkMobile_def
       handleRenderVideo_def split: option.splits)

lemma valid_run: "list_all validItem (items (run es initialState))"
proof (induction es rule: rev_induct)
  case Nil
  show ?case by (simp add: run_def initialState_def items_def allItems_def)
next
  case (snoc e es)
  then show ?case by (simp add: run_snoc valid_handle)
qed

section \<open>Facts about appends from any state\<close>

lemma items_empty: "clips s = [] \<Longrightarrow> textOverlays s = [] \<Longrightarrow> items s = []"
  by (simp add: items_def allItems_def)

lemma noOverlap_appends_from: "noOverlap (items s0) \<Longrightarrow> noOverlap (items (appends ops s0))"
  by (induction ops rule: rev_induct) (simp_all add: appends_def noOverlap_appendItem)

lemma valid_appends_from:
  "list_all validItem (items s0) \<Longrightarrow> list_all validItem (items (appends ops s0))"
  by (induction ops rule: rev_induct) (simp_all add: appends_def valid_appendItem)

lemma startsIncrease_appends_from:
  "list_all validItem (items s0) \<Longrightarrow> startsIncrease s0 \<Longrightarrow> startsIncrease (appends ops s0)"
proof (induction ops rule: rev_induct)
  case Nil
  then show ?case by (simp add: appends_def)
next
  case (snoc a ops)
  then show ?case by (simp add: appends_snoc startsIncrease_appendItem valid_appends_from)
qed

section \<open>Facts about the duration the player gets\<close>

lemma player_keeps_positive: "0 < d \<Longrightarrow> playerDurationInFrames d = d"
  by (simp add: playerDurationInFrames_def)

lemma totalDuration_run_pos: "0 < totalDuration (run es initialState)"
proof (cases "items (run es initialState) = []")
  case True
  with durationConsistent_run [of es] show ?thesis by (simp add: durationConsistent_def)
next
  case False
  then obtain x where x: "x \<in> set (items (run es initialState))"
    by (cases "items (run es initialState)") auto
  with valid_run [of es] have "0 < itemEnd x"
    by (simp add: list_all_iff validItem_end_pos)
  moreover from x have "itemEnd x \<le> Max (itemEnd ` set (items (run es initialState)))"
    by simp
  ultimately show ?thesis
    using False durationConsistent_run [of es] by (simp add: durationConsistent_def)
qed

lemma totalDuration_appendItem_pos: "0 < totalDuration (appendItem a s)"
proof (cases a)
  case AppendMediaClip
  have "itemEnd (ClipItem (newClip s)) \<le> Max (itemEnd ` set (items (addClip s)))"
    by (simp add: set_items_addClip)
  with itemEnd_newClip_pos [of s] AppendMediaClip show ?thesis
    by (simp add: totalDuration_addClip)
next
  case AppendTextOverlay
  have "itemEnd (OverlayItem (newOverlay s)) \<le> Max (itemEnd ` set (items (addTextOverlay s)))"
    by (simp add: set_items_addTextOverlay)
  with itemEnd_newOverlay_pos [of s] AppendTextOverlay show ?thesis
    by (simp add: totalDuration_addTextOverlay)
qed

section \<open>Appended items never overlap\<close>

text \<open>
  C1. After any sequence of appends that starts from a state with empty collections (the
  initial state of the component is one), no two items
  at different positions of the merged array (clips and text overlays together) have
  overlapping intervals \<open>[start, start + duration)\<close>; and the start that the next
  append gives to its item is the largest end frame over all items of both collections
  (frame 0 when there is none).
\<close>

theorem append_no_overlap:
  assumes "clips s0 = []" and "textOverlays s0 = []" and "s = appends ops s0"
  shows "(\<forall>i j. i < length (items s) \<longrightarrow> j < length (items s) \<longrightarrow> i \<noteq> j
            \<longrightarrow> \<not> overlap (items s ! i) (items s ! j))
         \<and> (items s = [] \<longrightarrow> start (newClip s) = 0 \<and> start (newOverlay s) = 0)
         \<and> (items s \<noteq> [] \<longrightarrow>
              start (newClip s) = Max (itemEnd ` set (items s))
              \<and> start (newOverlay s) = Max (itemEnd ` set (items s)))"
proof (intro conjI allI impI)
  fix i j
  assume ij: "i < length (items s)" "j < length (items s)" "i \<noteq> j"
  have "noOverlap (items s)"
    unfolding assms(3) by (rule noOverlap_appends_from) (simp add: items_empty assms noOverlap_def)
  then show "\<not> overlap (items s ! i) (items s ! j)"
    using ij by (rule noOverlap_nth)
next
  assume "items s = []"
  then show "start (newClip s) = 0" "start (newOverlay s) = 0"
    by (simp_all add: start_newClip start_newOverlay anchorFrame_Max)
next
  assume ne: "items s \<noteq> []"
  have "list_all validItem (items s)"
    unfolding assms(3) by (rule valid_appends_from) (simp add: items_empty assms)
  then have "anchorFrame s = Max (itemEnd ` set (items s))"
    unfolding anchorFrame_Max using ne by (rule Max_ends_pos)
  then show "start (newClip s) = Max (itemEnd ` set (items s))"
    "start (newOverlay s) = Max (itemEnd ` set (items s))"
    by (simp_all add: start_newClip start_newOverlay)
qed

theorem append_no_overlap_witness:
  "clips initialState = [] \<and> textOverlays initialState = []
   \<and> \<not> overlap (items (appends [AppendMediaClip, AppendTextOverlay, AppendMediaClip] initialState) ! 0)
              (items (appends [AppendMediaClip, AppendTextOverlay, AppendMediaClip] initialState) ! 2)
   \<and> \<not> overlap (items (appends [AppendMediaClip, AppendTextOverlay, AppendMediaClip] initialState) ! 1)
              (items (appends [AppendMediaClip, AppendTextOverlay, AppendMediaClip] initialState) ! 2)
   \<and> start (newClip (appends [AppendMediaClip, AppendTextOverlay, AppendMediaClip] initialState)) = 500
   \<and> start (newOverlay (appends [] initialState)) = 0"
proof -
  let ?s = "appends [AppendMediaClip, AppendTextOverlay, AppendMediaClip] initialState"
  have i: "clips initialState = []" "textOverlays initialState = []"
    by (simp_all add: initialState_def)
  have len: "length (items ?s) = 3" by code_simp
  have ne: "items ?s \<noteq> []" using len by auto
  have mx: "Max (itemEnd ` set (items ?s)) = 500" by code_simp
  have e: "items (appends [] initialState) = []" by code_simp
  note t = append_no_overlap
    [OF i refl, of "[AppendMediaClip, AppendTextOverlay, AppendMediaClip]"]
  from t len have "\<not> overlap (items ?s ! 0) (items ?s ! 2)" by simp
  moreover from t len have "\<not> overlap (items ?s ! 1) (items ?s ! 2)" by simp
  moreover from t ne mx have "start (newClip ?s) = 500" by simp
  moreover from append_no_overlap [OF i refl, of "[]"] e
  have "start (newOverlay (appends [] initialState)) = 0" by simp
  ultimately show ?thesis using i by simp
qed

section \<open>The total duration follows the items\<close>

text \<open>
  C2. After \<open>addClip\<close> and after \<open>addTextOverlay\<close>, from any state, the stored
  \<open>totalDuration\<close> is the largest \<open>start + duration\<close> over all clips and text overlays
  of the new state (which holds at least the new item). In every state the component
  reaches from its initial state, by appends and by any of its other handlers and effects,
  \<open>totalDuration\<close> is that maximum, or 1 when there is no item. In all these states
  the duration handed to the player is the stored \<open>totalDuration\<close> itself.
\<close>

theorem total_duration_consistent:
  "totalDuration (addClip s) = Max (itemEnd ` set (items (addClip s)))
   \<and> totalDuration (addTextOverlay s) = Max (itemEnd ` set (items (addTextOverlay s)))
   \<and> items (addClip s) \<noteq> [] \<and> items (addTextOverlay s) \<noteq> []
   \<and> playerDurationInFrames (totalDuration (addClip s)) = totalDuration (addClip s)
   \<and> playerDurationInFrames (totalDuration (addTextOverlay s)) = totalDuration (addTextOverlay s)
   \<and> totalDuration (run es initialState) =
       (if items (run es initialState) = [] then 1
        else Max (itemEnd ` set (items (run es initialState))))
   \<and> playerDurationInFrames (totalDuration (run es initialState)) =
       totalDuration (run es initialState)"
proof -
  have "playerDurationInFrames (totalDuration (addClip s)) = totalDuration (addClip s)"
    using totalDuration_appendItem_pos [of AppendMediaClip s]
    by (simp add: player_keeps_positive)
  moreover
  have "playerDurationInFrames (totalDuration (addTextOverlay s)) = totalDuration (addTextOverlay s)"
    using totalDuration_appendItem_pos [of AppendTextOverlay s]
    by (simp add: player_keeps_positive)
  moreover
  have "playerDurationInFrames (totalDuration (run es initialState)) =
          totalDuration (run es initialState)"
    by (simp add: player_keeps_positive totalDuration_run_pos)
  moreover
  have "totalDuration (run es initialState) =
       (if items (run es initialState) = [] then 1
        else Max (itemEnd ` set (items (run es initialState))))"
    using durationConsistent_run [of es] by (simp add: durationConsistent_def)
  ultimately show ?thesis
    by (simp add: totalDuration_addClip totalDuration_addTextOverlay items_addClip_ne
        items_addTextOverlay_ne)
qed

theorem total_duration_consistent_witness:
  "totalDuration (addClip (addTextOverlay initialState)) = 300
   \<and> totalDuration (addTextOverlay (addTextOverlay initialState)) = 200
   \<and> totalDuration (run [] initialState) = 1
   \<and> totalDuration (run [SeedEffect, PlayPause (Some None), Click AppendTextOverlay] initialState) = 300"
proof -
  have a: "Max (itemEnd ` set (items (addClip (addTextOverlay initialState)))) = 300"
    by code_simp
  have b: "Max (itemEnd ` set (items (addTextOverlay (addTextOverlay initialState)))) = 200"
    by code_simp
  have c: "items (run [] initialState) = []" by code_simp
  have d: "items (run [SeedEffect, PlayPause (Some None), Click AppendTextOverlay] initialState) \<noteq> []"
    by code_simp
  have e: "Max (itemEnd ` set (items (run [SeedEffect, PlayPause (Some None), Click AppendTextOverlay] initialState))) = 300"
    by code_simp
  from total_duration_consistent [of "addTextOverlay initialState" "[]"] a b c
  have "totalDuration (addClip (addTextOverlay initialState)) = 300"
    "totalDuration (addTextOverlay (addTextOverlay initialState)) = 200"
    "totalDuration (run [] initialState) = 1"
    by simp_all
  moreover from total_duration_consistent
    [of initialState "[SeedEffect, PlayPause (Some None), Click AppendTextOverlay]"] d e
  have "totalDuration (run [SeedEffect, PlayPause (Some None), Click AppendTextOverlay] initialState) = 300"
    by simp
  ultimately show ?thesis by simp
qed

section \<open>The chained scenario\<close>

text \<open>
  C3. From the empty collections, \<open>addClip\<close> leaves one clip, \<open>clip-1\<close>, at frame 0 with
  duration 200 in row 0, and a total duration of 200; \<open>addTextOverlay\<close> after it leaves
  one overlay, \<open>text-1\<close>, at frame 200 with duration 100 in row 0, and a total duration
  of 300.
\<close>

theorem scenario_clip_then_text:
  "clips initialState = [] \<and> textOverlays initialState = []
   \<and> clips (addClip initialState) =
       [\<lparr>item_id = ''clip-1'', start = 0, duration = 200, row = 0, src = clipSrc\<rparr>]
   \<and> textOverlays (addClip initialState) = []
   \<and> totalDuration (addClip initialState) = 200
   \<and> clips (addTextOverlay (addClip initialState)) = clips (addClip initialState)
   \<and> textOverlays (addTextOverlay (addClip initialState)) =
       [\<lparr>item_id = ''text-1'', start = 200, duration = 100, row = 0,
         text_value = ''BUILD.''\<rparr>]
   \<and> totalDuration (addTextOverlay (addClip initialState)) = 300"
  by code_simp

section \<open>Where items come from\<close>

text \<open>
  C4, as stated, fails: the effect that runs on mount is not an append, and from the
  initial state it fills both collections. Its overlay starts at frame 50, inside the
  interval of its clip, where the appends put the overlay at frame 200 or at frame 0.
\<close>

theorem seed_creates_items_counterexample:
  "\<not> isAppend SeedEffect
   \<and> items initialState = []
   \<and> items (handle SeedEffect initialState) =
       [ClipItem initialClip, OverlayItem initialTextOverlay]
   \<and> start initialTextOverlay = 50
   \<and> overlap (ClipItem initialClip) (OverlayItem initialTextOverlay)
   \<and> map start (textOverlays (appends [AppendMediaClip, AppendTextOverlay] initialState)) = [200]
   \<and> map start (textOverlays (appends [AppendTextOverlay, AppendMediaClip] initialState)) = [0]"
  by code_simp

text \<open>
  C4, amended. A handler or effect other than an append and the mount effect leaves both
  collections as they are. An append adds its one new item at the end of its collection.
  The mount effect, when both collections are empty, stores the two fixed items
  \<open>clip-1\<close> (frame 0, duration 200) and \<open>text-1\<close> (frame 50, duration 100), and does
  nothing otherwise. No step edits, moves or deletes an item: the collections before a
  step are a prefix of the collections after it.
\<close>

theorem items_from_append_or_seed:
  "(\<not> isAppend e \<and> e \<noteq> SeedEffect \<longrightarrow>
      clips (handle e s) = clips s \<and> textOverlays (handle e s) = textOverlays s)
   \<and> clips (handle (Click a) s) =
       clips s @ (case a of AppendMediaClip \<Rightarrow> [newClip s] | AppendTextOverlay \<Rightarrow> [])
   \<and> textOverlays (handle (Click a) s) =
       textOverlays s @ (case a of AppendMediaClip \<Rightarrow> [] | AppendTextOverlay \<Rightarrow> [newOverlay s])
   \<and> clips (handle SeedEffect s) =
       (if clips s = [] \<and> textOverlays s = [] then [initialClip] else clips s)
   \<and> textOverlays (handle SeedEffect s) =
       (if clips s = [] \<and> textOverlays s = [] then [initialTextOverlay] else textOverlays s)
   \<and> take (length (clips s)) (clips (handle e s)) = clips s
   \<and> take (length (textOverlays s)) (textOverlays (handle e s)) = textOverlays s"
  using collections_other [of e s] collections_append [of a s] collections_seed [of s]
    collections_kept [of s e]
  by simp

theorem items_from_append_or_seed_witness:
  "\<not> isAppend (FrameTick (Some (Some 7))) \<and> FrameTick (Some (Some 7)) \<noteq> SeedEffect
   \<and> clips (handle (FrameTick (Some (Some 7))) (addClip initialState)) = clips (addClip initialState)
   \<and> textOverlays (handle (FrameTick (Some (Some 7))) (addClip initialState)) = []
   \<and> currentFrame (handle (FrameTick (Some (Some 7))) (addClip initialState)) = 7
   \<and> clips (handle SeedEffect (addClip initialState)) = clips (addClip initialState)
   \<and> textOverlays (handle SeedEffect initialState) = [initialTextOverlay]"
proof -
  note t = items_from_append_or_seed
    [of "FrameTick (Some (Some 7))" "addClip initialState" AppendMediaClip]
  have h: "\<not> isAppend (FrameTick (Some (Some 7)))" "FrameTick (Some (Some 7)) \<noteq> SeedEffect"
    by simp_all
  have o: "textOverlays (addClip initialState) = []" by code_simp
  have c: "clips (addClip initialState) \<noteq> []" by code_simp
  have f: "currentFrame (handle (FrameTick (Some (Some 7))) (addClip initialState)) = 7"
    by code_simp
  have e: "clips initialState = []" "textOverlays initialState = []" by code_simp+
  from t h o have "clips (handle (FrameTick (Some (Some 7))) (addClip initialState)) =
      clips (addClip initialState)"
    "textOverlays (handle (FrameTick (Some (Some 7))) (addClip initialState)) = []"
    by simp_all
  moreover from t c have "clips (handle SeedEffect (addClip initialState)) = clips (addClip initialState)"
    by simp
  moreover from items_from_append_or_seed [of SeedEffect initialState AppendMediaClip] e
  have "textOverlays (handle SeedEffect initialState) = [initialTextOverlay]"
    by simp
  ultimately show ?thesis using h f by simp
qed

section \<open>The composition is sorted by start\<close>

text \<open>
  C5. For any two collections, the sequences of the composition come in non-decreasing
  order of their first frame; the sequences that start at one and the same frame come in
  the order their items have in the merged array (the clips in array order, then the
  overlays in array order); and the composition holds one sequence for each item. After
  appends from the empty collections no two items start at the same frame.
\<close>

theorem composition_sorted_stable:
  "sorted (map from_frame (Composition cs ts))
   \<and> (\<forall>k. filter (\<lambda>b. from_frame b = k) (Composition cs ts) =
            map renderItem (filter (\<lambda>x. itemStart x = k) (allItems cs ts)))
   \<and> mset (Composition cs ts) = mset (map renderItem (allItems cs ts))
   \<and> distinct (map itemStart (items (appends ops initialState)))"
proof -
  let ?sorted = "sort_key itemStart (allItems cs ts)"
  have c: "Composition cs ts = map renderItem ?sorted"
    by (simp add: Composition_def arraySort_sort_key)
  have f: "from_frame \<circ> renderItem = itemStart"
    by (rule ext) (simp add: from_frame_renderItem)
  have "sorted (map from_frame (Composition cs ts))"
    by (simp add: c f)
  moreover have "filter (\<lambda>b. from_frame b = k) (Composition cs ts) =
            map renderItem (filter (\<lambda>x. itemStart x = k) (allItems cs ts))" for k
  proof -
    have "filter (\<lambda>b. from_frame b = k) (Composition cs ts) =
            map renderItem (filter (\<lambda>x. itemStart x = k) ?sorted)"
      by (simp add: c filter_map comp_def from_frame_renderItem)
    then show ?thesis by (simp add: sort_key_stable)
  qed
  moreover have "mset (Composition cs ts) = mset (map renderItem (allItems cs ts))"
    by (simp add: c)
  moreover have "distinct (map itemStart (items (appends ops initialState)))"
    by (rule distinct_starts) (rule noOverlap_appends, rule valid_appends)
  ultimately show ?thesis by blast
qed

theorem composition_sorted_stable_witness:
  "map from_frame (Composition sameStartClips sameStartOverlays) = [0, 0, 50, 50]
   \<and> sorted [0, 0, 50, 50 :: int]
   \<and> map key (filter (\<lambda>b. from_frame b = 0) (Composition sameStartClips sameStartOverlays))
       = [''clip-2'', ''text-1'']
   \<and> map key (filter (\<lambda>b. from_frame b = 50) (Composition sameStartClips sameStartOverlays))
       = [''clip-1'', ''text-2'']"
proof -
  note t = composition_sorted_stable [of sameStartClips sameStartOverlays "[]"]
  have m: "map from_frame (Composition sameStartClips sameStartOverlays) = [0, 0, 50, 50]"
    by code_simp
  have a: "map key (map renderItem (filter (\<lambda>x. itemStart x = 0)
             (allItems sameStartClips sameStartOverlays))) = [''clip-2'', ''text-1'']"
    by code_simp
  have b: "map key (map renderItem (filter (\<lambda>x. itemStart x = 50)
             (allItems sameStartClips sameStartOverlays))) = [''clip-1'', ''text-2'']"
    by code_simp
  from t m have "sorted [0, 0, 50, 50 :: int]" by simp
  moreover from t a
  have "map key (filter (\<lambda>b. from_frame b = 0) (Composition sameStartClips sameStartOverlays))
       = [''clip-2'', ''text-1'']"
    by simp
  moreover from t b
  have "map key (filter (\<lambda>b. from_frame b = 50) (Composition sameStartClips sameStartOverlays))
       = [''clip-1'', ''text-2'']"
    by simp
  ultimately show ?thesis using m by simp
qed

section \<open>The anchor is the first item with the latest end\<close>

text \<open>
  C6. The reduction replaces its accumulator only by an item that ends strictly later, so
  on equal end frames the accumulator is kept. When some item ends after frame 0, the
  anchor is the first item of the merged array whose end frame is the maximum; when none
  does, the anchor is the object the reduction starts from. The new item starts at the
  anchor's \<open>start + duration\<close>.
\<close>

theorem anchor_first_seen_wins:
  "(itemEnd item = anchorEnd latest \<longrightarrow> pickLatestEnd latest item = latest)
   \<and> ((\<forall>x \<in> set (allItems cs ts). itemEnd x \<le> 0) \<longrightarrow> lastItem cs ts = Origin)
   \<and> ((\<exists>x \<in> set (allItems cs ts). 0 < itemEnd x) \<longrightarrow>
        (\<exists>x. find (\<lambda>y. itemEnd y = Max (itemEnd ` set (allItems cs ts))) (allItems cs ts) = Some x
             \<and> lastItem cs ts = Picked x))
   \<and> start (newClip s) =
        anchorStart (lastItem (clips s) (textOverlays s))
        + anchorDuration (lastItem (clips s) (textOverlays s))
   \<and> start (newOverlay s) =
        anchorStart (lastItem (clips s) (textOverlays s))
        + anchorDuration (lastItem (clips s) (textOverlays s))"
proof (intro conjI impI)
  assume "itemEnd item = anchorEnd latest"
  then show "pickLatestEnd latest item = latest" by (rule pick_tie)
next
  assume "\<forall>x \<in> set (allItems cs ts). itemEnd x \<le> 0"
  then show "lastItem cs ts = Origin" by (rule lastItem_Origin)
next
  assume "\<exists>x \<in> set (allItems cs ts). 0 < itemEnd x"
  then show "\<exists>x. find (\<lambda>y. itemEnd y = Max (itemEnd ` set (allItems cs ts))) (allItems cs ts) = Some x
             \<and> lastItem cs ts = Picked x"
    by (rule lastItem_first_max)
next
  show "start (newClip s) =
        anchorStart (lastItem (clips s) (textOverlays s))
        + anchorDuration (lastItem (clips s) (textOverlays s))"
    by (simp add: newClip_def Let_def)
next
  show "start (newOverlay s) =
        anchorStart (lastItem (clips s) (textOverlays s))
        + anchorDuration (lastItem (clips s) (textOverlays s))"
    by (simp add: newOverlay_def Let_def)
qed

theorem anchor_first_seen_wins_witness:
  "itemEnd (OverlayItem (tieOverlays ! 0)) = anchorEnd (Picked (ClipItem (tieClips ! 1)))
   \<and> pickLatestEnd (Picked (ClipItem (tieClips ! 1))) (OverlayItem (tieOverlays ! 0))
       = Picked (ClipItem (tieClips ! 1))
   \<and> lastItem [] [] = Origin
   \<and> Max (itemEnd ` set (allItems tieClips tieOverlays)) = 300
   \<and> lastItem tieClips tieOverlays = Picked (ClipItem (tieClips ! 1))
   \<and> start (newClip (initialState\<lparr>clips := tieClips, textOverlays := tieOverlays\<rparr>)) = 300"
proof -
  note t = anchor_first_seen_wins
    [of "OverlayItem (tieOverlays ! 0)" "Picked (ClipItem (tieClips ! 1))" tieClips tieOverlays
        "initialState\<lparr>clips := tieClips, textOverlays := tieOverlays\<rparr>"]
  have tie: "itemEnd (OverlayItem (tieOverlays ! 0)) = anchorEnd (Picked (ClipItem (tieClips ! 1)))"
    by code_simp
  have pos: "\<exists>x \<in> set (allItems tieClips tieOverlays). 0 < itemEnd x"
    by code_simp
  have mx: "Max (itemEnd ` set (allItems tieClips tieOverlays)) = 300"
    by code_simp
  have f: "find (\<lambda>y. itemEnd y = Max (itemEnd ` set (allItems tieClips tieOverlays)))
             (allItems tieClips tieOverlays) = Some (ClipItem (tieClips ! 1))"
    by code_simp
  from t tie have a: "pickLatestEnd (Picked (ClipItem (tieClips ! 1))) (OverlayItem (tieOverlays ! 0))
       = Picked (ClipItem (tieClips ! 1))"
    by blast
  from t pos f have b: "lastItem tieClips tieOverlays = Picked (ClipItem (tieClips ! 1))"
    by auto
  from anchor_first_seen_wins [of _ _ "[]" "[]"] have c: "lastItem [] [] = Origin"
    by (simp add: allItems_def)
  from t b have d: "start (newClip (initialState\<lparr>clips := tieClips, textOverlays := tieOverlays\<rparr>)) = 300"
    by (simp add: tieClips_def)
  from tie a b c d mx show ?thesis by simp
qed

section \<open>The duration aggregator\<close>

text \<open>
  C7. \<open>updateTotalDuration\<close> stores the larger of \<open>lastClipEnd\<close> and
  \<open>lastTextOverlayEnd\<close>, each the largest \<open>start + duration\<close> of its collection and
  at least 0, and changes nothing else. For two empty collections it stores 0, not 1; the
  floor of 1 is applied where the preview hands the duration to the player.
\<close>

theorem duration_aggregator:
  "totalDuration (updateTotalDuration cs ts s) =
     max (Max (insert 0 ((\<lambda>c. start c + duration c) ` set cs)))
         (Max (insert 0 ((\<lambda>t. start t + duration t) ` set ts)))
   \<and> updateTotalDuration cs ts s = s\<lparr>totalDuration := max (lastEnd cs) (lastEnd ts)\<rparr>
   \<and> totalDuration (updateTotalDuration [] [] s) = 0
   \<and> playerDurationInFrames (totalDuration (updateTotalDuration [] [] s)) = 1
   \<and> playerDurationInFrames d = max 1 d"
proof -
  have "totalDuration (updateTotalDuration cs ts s) =
          max (Max (insert 0 ((\<lambda>c. start c + duration c) ` set cs)))
              (Max (insert 0 ((\<lambda>t. start t + duration t) ` set ts)))"
    by (simp add: totalDuration_update lastEnd_Max)
  moreover have "updateTotalDuration cs ts s = s\<lparr>totalDuration := max (lastEnd cs) (lastEnd ts)\<rparr>"
    by (simp add: updateTotalDuration_def Let_def)
  moreover have "totalDuration (updateTotalDuration [] [] s) = 0"
    by (simp add: totalDuration_update lastEnd_def)
  moreover have "playerDurationInFrames (totalDuration (updateTotalDuration [] [] s)) = 1"
    by (simp add: totalDuration_update lastEnd_def playerDurationInFrames_def)
  moreover have "playerDurationInFrames d = max 1 d"
    by (simp add: playerDurationInFrames_def)
  ultimately show ?thesis by (intro conjI)
qed

section \<open>Each collection stays sorted\<close>

text \<open>
  C10. After any sequence of appends that starts from a state with empty collections, the clips
  and, separately, the text overlays have strictly increasing starts in array order; an
  append puts its item at the end of its own collection and leaves the other collection
  alone, and the start of that item is at least the end frame of every item already in
  either collection.
\<close>

theorem append_at_end_sorted:
  assumes "clips s0 = []" and "textOverlays s0 = []" and "s = appends ops s0"
  shows "sorted_wrt (<) (map start (clips s))
         \<and> sorted_wrt (<) (map start (textOverlays s))
         \<and> clips (addClip s) = clips s @ [newClip s]
         \<and> textOverlays (addClip s) = textOverlays s
         \<and> textOverlays (addTextOverlay s) = textOverlays s @ [newOverlay s]
         \<and> clips (addTextOverlay s) = clips s
         \<and> (\<forall>x \<in> set (items s). itemEnd x \<le> start (newClip s))
         \<and> (\<forall>x \<in> set (items s). itemEnd x \<le> start (newOverlay s))"
proof -
  have "startsIncrease s"
    unfolding assms(3)
    by (rule startsIncrease_appends_from) (simp_all add: items_empty assms startsIncrease_def)
  then have "sorted_wrt (<) (map start (clips s))" "sorted_wrt (<) (map start (textOverlays s))"
    by (simp_all add: startsIncrease_def)
  moreover have "\<forall>x \<in> set (items s). itemEnd x \<le> start (newClip s)"
    by (simp add: start_newClip anchorFrame_ge)
  moreover have "\<forall>x \<in> set (items s). itemEnd x \<le> start (newOverlay s)"
    by (simp add: start_newOverlay anchorFrame_ge)
  ultimately show ?thesis
    by (simp add: clips_addClip textOverlays_addClip clips_addTextOverlay
        textOverlays_addTextOverlay)
qed

theorem append_at_end_sorted_witness:
  "clips initialState = [] \<and> textOverlays initialState = []
   \<and> map start (clips (appends [AppendMediaClip, AppendTextOverlay, AppendMediaClip, AppendTextOverlay] initialState)) = [0, 300]
   \<and> sorted_wrt (<) [0, 300 :: int]
   \<and> map start (textOverlays (appends [AppendMediaClip, AppendTextOverlay, AppendMediaClip, AppendTextOverlay] initialState)) = [200, 500]
   \<and> sorted_wrt (<) [200, 500 :: int]
   \<and> map itemEnd (items (appends [AppendMediaClip, AppendTextOverlay, AppendMediaClip, AppendTextOverlay] initialState)) = [200, 500, 300, 600]
   \<and> start (newClip (appends [AppendMediaClip, AppendTextOverlay, AppendMediaClip, AppendTextOverlay] initialState)) = 600
   \<and> list_all (\<lambda>x. itemEnd x \<le> start (newClip (appends [AppendMediaClip, AppendTextOverlay, AppendMediaClip, AppendTextOverlay] initialState)))
        (items (appends [AppendMediaClip, AppendTextOverlay, AppendMediaClip, AppendTextOverlay] initialState))"
proof -
  let ?s = "appends [AppendMediaClip, AppendTextOverlay, AppendMediaClip, AppendTextOverlay] initialState"
  have i: "clips initialState = []" "textOverlays initialState = []"
    by (simp_all add: initialState_def)
  note t = append_at_end_sorted
    [OF i refl, of "[AppendMediaClip, AppendTextOverlay, AppendMediaClip, AppendTextOverlay]"]
  have c: "map start (clips ?s) = [0, 300]" by code_simp
  have o: "map start (textOverlays ?s) = [200, 500]" by code_simp
  have e: "map itemEnd (items ?s) = [200, 500, 300, 600]" by code_simp
  have n: "start (newClip ?s) = 600" by code_simp
  from t c have "sorted_wrt (<) [0, 300 :: int]" by simp
  moreover from t o have "sorted_wrt (<) [200, 500 :: int]" by simp
  moreover from t
  have "list_all (\<lambda>x. itemEnd x \<le> start (newClip ?s)) (items ?s)"
    by (simp add: list_all_iff)
  ultimately show ?thesis using i c o e n by simp
qed

end
